theory Spec2Isabelle
  imports Complex_Main
begin

section \<open>The spreadsheet behind \<open>SheetsManager\<close>\<close>

text \<open>
  \<open>sheets_manager.py\<close> keeps every table in one worksheet of a spreadsheet: row 1 holds
  the column names, the rows below hold the records, and a row is addressed by its
  1-based number. A worksheet is the list of its rows, a row the list of its cell texts.
  Cell contents are kept as the text the sheet shows. The row reads of the library
  (\<open>find\<close>, \<open>row_values\<close>) return those texts; its record reader
  (\<open>get_all_records\<close>) turns the texts that read as numbers into numbers.
\<close>

type_synonym row = "string list"
type_synonym sheet = "row list"

text \<open>A Python dict built by \<open>dict(zip(headers, values))\<close>: the pairs in order; a later
  pair with the same key replaces an earlier one.\<close>

type_synonym pydict = "(string \<times> string) list"

definition dict_get :: "pydict \<Rightarrow> string \<Rightarrow> string option" where
  "dict_get d k = map_of (rev d) k"

record store =
  is_connected :: bool
  sheets :: "string \<Rightarrow> sheet option"

text \<open>Exceptions that the modelled code raises or receives from the sheets library.\<close>

datatype exn =
    NotConnected
  | WorksheetMissing
  | CellNotFound
  | APIError
  | ValueError
  | AttributeError

text \<open>
  Every call to the sheets service can fail. Within one request each method touches a
  given worksheet with a given call at most once, so the calls that fail during a request
  are a predicate on (calling method, worksheet title, library call). A failing call
  raises \<open>APIError\<close> and leaves the spreadsheet as it was.
\<close>

datatype caller = GetAllRecordsM | FindRecordById | AppendRowM | AddQrToken | ConsumeQrToken

datatype gs_call = Worksheet | Find | RowValues | HeaderValues | DeleteRows | AppendRow | GetAllRecords

type_synonym faults = "caller \<Rightarrow> string \<Rightarrow> gs_call \<Rightarrow> bool"

definition no_faults :: faults where
  "no_faults = (\<lambda>_ _ _. False)"

subsection \<open>Library calls on a worksheet\<close>

definition cell_value :: "row \<Rightarrow> nat \<Rightarrow> string" where
  "cell_value r c = (if 1 \<le> c \<and> c \<le> length r then r ! (c - 1) else [])"

text \<open>\<open>sheet.find(query, in_column=c)\<close>: the number of the first row, from the top, whose
  cell in column \<open>c\<close> is the query; row 1 is searched like any other.\<close>

fun find_from :: "nat \<Rightarrow> string \<Rightarrow> nat \<Rightarrow> sheet \<Rightarrow> nat option" where
  "find_from n q c [] = None"
| "find_from n q c (r # rs) = (if cell_value r c = q then Some n else find_from (Suc n) q c rs)"

definition find_cell :: "string \<Rightarrow> nat \<Rightarrow> sheet \<Rightarrow> nat option" where
  "find_cell q c sh = find_from 1 q c sh"

definition row_values :: "sheet \<Rightarrow> nat \<Rightarrow> row" where
  "row_values sh n = (if 1 \<le> n \<and> n \<le> length sh then sh ! (n - 1) else [])"

definition delete_rows :: "sheet \<Rightarrow> nat \<Rightarrow> sheet" where
  "delete_rows sh n = (if 1 \<le> n then take (n - 1) sh @ drop n sh else sh)"

subsection \<open>Python's \<open>int\<close> and \<open>str\<close> on decimal integers\<close>

definition is_digit :: "char \<Rightarrow> bool" where
  "is_digit c = (48 \<le> (of_char c :: nat) \<and> (of_char c :: nat) \<le> 57)"

definition digit_val :: "char \<Rightarrow> nat" where
  "digit_val c = of_char c - 48"

definition is_space :: "char \<Rightarrow> bool" where
  "is_space c = ((of_char c :: nat) \<in> {9, 10, 11, 12, 13, 28, 29, 30, 31, 32})"

definition strip :: "string \<Rightarrow> string" where
  "strip s = rev (dropWhile is_space (rev (dropWhile is_space s)))"

text \<open>Digits after the first one; a single underscore may stand between two digits.\<close>

fun parse_digits :: "nat \<Rightarrow> string \<Rightarrow> nat option" where
  "parse_digits acc [] = Some acc"
| "parse_digits acc (c # cs) =
     (if is_digit c then parse_digits (10 * acc + digit_val c) cs
      else if c = CHR ''_'' then
        (case cs of
           [] \<Rightarrow> None
         | d # ds \<Rightarrow> if is_digit d then parse_digits (10 * acc + digit_val d) ds else None)
      else None)"

definition parse_nat :: "string \<Rightarrow> nat option" where
  "parse_nat s =
     (case s of
        [] \<Rightarrow> None
      | c # cs \<Rightarrow> if is_digit c then parse_digits (digit_val c) cs else None)"

text \<open>\<open>int(s)\<close> for a text \<open>s\<close>: \<open>None\<close> stands for \<open>ValueError\<close>.\<close>

definition py_int :: "string \<Rightarrow> int option" where
  "py_int s =
     (case strip s of
        [] \<Rightarrow> None
      | c # cs \<Rightarrow>
          if c = CHR ''-'' then map_option (\<lambda>n. - int n) (parse_nat cs)
          else if c = CHR ''+'' then map_option int (parse_nat cs)
          else map_option int (parse_nat (c # cs)))"

definition digit_char :: "nat \<Rightarrow> char" where
  "digit_char d = char_of (48 + d)"

fun str_nat :: "nat \<Rightarrow> string" where
  "str_nat n = (if n < 10 then [digit_char n] else str_nat (n div 10) @ [digit_char (n mod 10)])"

declare str_nat.simps [simp del]

definition str_int :: "int \<Rightarrow> string" where
  "str_int i = (if i < 0 then CHR ''-'' # str_nat (nat (- i)) else str_nat (nat i))"

text \<open>\<open>int(x)\<close> for a float \<open>x\<close> truncates towards zero.\<close>

definition py_trunc :: "real \<Rightarrow> int" where
  "py_trunc x = (if 0 \<le> x then \<lfloor>x\<rfloor> else \<lceil>x\<rceil>)"

subsection \<open>The record reader of the library\<close>

text \<open>
  \<open>float(s)\<close> accepts, between blanks, an optional sign and then \<open>inf\<close>, \<open>infinity\<close> or
  \<open>nan\<close> in any letter case, or a decimal number: digits with an optional point, or a
  point followed by digits, and an optional exponent.
\<close>

definition ci_eq :: "char \<Rightarrow> char \<Rightarrow> bool" where
  "ci_eq c l = (c = l \<or> (65 \<le> (of_char c :: nat) \<and> (of_char c :: nat) \<le> 90
                          \<and> (of_char c :: nat) + 32 = of_char l))"

definition ci_match :: "string \<Rightarrow> string \<Rightarrow> bool" where
  "ci_match s l = (length s = length l \<and> list_all2 ci_eq s l)"

definition exponent_ok :: "string \<Rightarrow> bool" where
  "exponent_ok r =
     (case r of
        [] \<Rightarrow> True
      | e # r1 \<Rightarrow>
          (e = CHR ''e'' \<or> e = CHR ''E'')
          \<and> (let r2 = (case r1 of
                         [] \<Rightarrow> []
                       | c # cs \<Rightarrow> if c = CHR ''+'' \<or> c = CHR ''-'' then cs else c # cs)
             in r2 \<noteq> [] \<and> list_all is_digit r2))"

definition decimal_ok :: "string \<Rightarrow> bool" where
  "decimal_ok s =
     (let d1 = takeWhile is_digit s; r1 = dropWhile is_digit s
      in case r1 of
           [] \<Rightarrow> d1 \<noteq> []
         | c # r2 \<Rightarrow>
             if c = CHR ''.''
             then (d1 \<noteq> [] \<or> takeWhile is_digit r2 \<noteq> []) \<and> exponent_ok (dropWhile is_digit r2)
             else d1 \<noteq> [] \<and> exponent_ok r1)"

definition py_float_ok :: "string \<Rightarrow> bool" where
  "py_float_ok s =
     (let t = strip s;
          u = (case t of
                 [] \<Rightarrow> []
               | c # cs \<Rightarrow> if c = CHR ''+'' \<or> c = CHR ''-'' then cs else c # cs)
      in ci_match u ''inf'' \<or> ci_match u ''infinity'' \<or> ci_match u ''nan'' \<or> decimal_ok u)"

text \<open>
  A value of a record: a text, an integer, or a float. \<open>check_in\<close> compares record values
  with texts and \<open>None\<close> only, and a number never equals either, so the float carries no
  value here.
\<close>

datatype pyval = PStr string | PInt int | PFloat

text \<open>\<open>numericise\<close> of the library, with the defaults that \<open>get_all_records\<close> passes: a
  text with an underscore stays; otherwise \<open>int\<close> is tried, then \<open>float\<close>, and a text that
  is neither stays as it is.\<close>

definition numericise :: "string \<Rightarrow> pyval" where
  "numericise v =
     (if CHR ''_'' \<in> set v then PStr v
      else case py_int v of
             Some i \<Rightarrow> PInt i
           | None \<Rightarrow> if py_float_ok v then PFloat else PStr v)"

type_synonym pyrecord = "(string \<times> pyval) list"

definition record_get :: "pyrecord \<Rightarrow> string \<Rightarrow> pyval option" where
  "record_get d k = map_of (rev d) k"

text \<open>The reader fills a short row with empty cells up to the width of the header row.\<close>

definition pad_row :: "nat \<Rightarrow> row \<Rightarrow> row" where
  "pad_row w r = r @ replicate (w - length r) []"

text \<open>\<open>sheet.get_all_records()\<close>: one dict per row below row 1, keyed by row 1.\<close>

definition records_of :: "sheet \<Rightarrow> pyrecord list" where
  "records_of sh =
     (case sh of
        [] \<Rightarrow> []
      | h # rs \<Rightarrow> map (\<lambda>r. zip h (map numericise (pad_row (length h) r))) rs)"

text \<open>\<open>v == s\<close> for a record value \<open>v\<close> and a text-or-\<open>None\<close> \<open>s\<close>.\<close>

definition py_eq :: "pyval option \<Rightarrow> string option \<Rightarrow> bool" where
  "py_eq v s =
     (case v of
        None \<Rightarrow> s = None
      | Some (PStr a) \<Rightarrow> s = Some a
      | Some (PInt i) \<Rightarrow> False
      | Some PFloat \<Rightarrow> False)"

section \<open>\<open>SheetsManager\<close>\<close>

definition get_worksheet :: "faults \<Rightarrow> caller \<Rightarrow> store \<Rightarrow> string \<Rightarrow> exn + sheet" where
  "get_worksheet flt who st title =
     (if \<not> is_connected st then Inl NotConnected
      else if flt who title Worksheet then Inl APIError
      else case sheets st title of
             None \<Rightarrow> Inl WorksheetMissing
           | Some sh \<Rightarrow> Inr sh)"

text \<open>\<open>get_all_records\<close> answers the empty list when it is not connected and when anything
  raises while it reads.\<close>

definition get_all_records :: "faults \<Rightarrow> store \<Rightarrow> string \<Rightarrow> pyrecord list" where
  "get_all_records flt st sheet_name =
     (if \<not> is_connected st then []
      else case get_worksheet flt GetAllRecordsM st sheet_name of
             Inl e \<Rightarrow> []
           | Inr sh \<Rightarrow> if flt GetAllRecordsM sheet_name GetAllRecords then [] else records_of sh)"

text \<open>The \<open>try\<close> block of \<open>find_record_by_id\<close>, then the method with its handlers: both
  handlers return \<open>None\<close>.\<close>

definition find_record_try :: "faults \<Rightarrow> store \<Rightarrow> string \<Rightarrow> string \<Rightarrow> nat \<Rightarrow> exn + pydict" where
  "find_record_try flt st sheet_name record_id id_column =
     (case get_worksheet flt FindRecordById st sheet_name of
        Inl e \<Rightarrow> Inl e
      | Inr sh \<Rightarrow>
          if flt FindRecordById sheet_name Find then Inl APIError
          else (case find_cell record_id id_column sh of
                  None \<Rightarrow> Inl CellNotFound
                | Some n \<Rightarrow>
                    if flt FindRecordById sheet_name RowValues then Inl APIError
                    else if flt FindRecordById sheet_name HeaderValues then Inl APIError
                    else Inr (zip (row_values sh 1) (row_values sh n))))"

definition find_record_by_id :: "faults \<Rightarrow> store \<Rightarrow> string \<Rightarrow> string \<Rightarrow> nat \<Rightarrow> pydict option" where
  "find_record_by_id flt st sheet_name record_id id_column =
     (if \<not> is_connected st then None
      else case find_record_try flt st sheet_name record_id id_column of
             Inl e \<Rightarrow> None
           | Inr d \<Rightarrow> Some d)"

text \<open>\<open>append_row\<close> prints and re-raises what the library raises; not connected, it only
  pretends to write.\<close>

definition append_row :: "faults \<Rightarrow> store \<Rightarrow> string \<Rightarrow> row \<Rightarrow> (exn + unit) \<times> store" where
  "append_row flt st sheet_name data =
     (if \<not> is_connected st then (Inr (), st)
      else case get_worksheet flt AppendRowM st sheet_name of
             Inl e \<Rightarrow> (Inl e, st)
           | Inr sh \<Rightarrow>
               if flt AppendRowM sheet_name AppendRow then (Inl APIError, st)
               else (Inr (), st\<lparr>sheets := (sheets st)(sheet_name \<mapsto> sh @ [data])\<rparr>))"

text \<open>The payload that \<open>generate_qr_token\<close> hands to \<open>add_qr_token\<close>.\<close>

record token_payload =
  payload_token_uuid :: string
  payload_participant_id :: string
  payload_agenda_item_id :: string
  payload_device_id :: string
  payload_expires_at :: int

definition add_qr_token :: "faults \<Rightarrow> store \<Rightarrow> token_payload \<Rightarrow> (exn + unit) \<times> store" where
  "add_qr_token flt st token_data =
     (if \<not> is_connected st then (Inr (), st)
      else case get_worksheet flt AddQrToken st ''Qr_Tokens'' of
             Inl e \<Rightarrow> (Inl e, st)
           | Inr sh \<Rightarrow>
               let data = [payload_token_uuid token_data, payload_participant_id token_data,
                           payload_agenda_item_id token_data, payload_device_id token_data,
                           str_int (payload_expires_at token_data)]
               in if flt AddQrToken ''Qr_Tokens'' AppendRow then (Inl APIError, st)
                  else (Inr (), st\<lparr>sheets := (sheets st)(''Qr_Tokens'' \<mapsto> sh @ [data])\<rparr>))"

text \<open>
  What \<open>consume_qr_token\<close> returns on success: the row as a dict, with the entry
  \<open>expires_at\<close> replaced by its integer value.
\<close>

record consumed_token =
  token_fields :: pydict
  token_expires_at :: int

text \<open>\<open>int(token_data.get('expires_at', 0))\<close>: \<open>None\<close> stands for the \<open>ValueError\<close> of a
  text that is no integer.\<close>

definition expiry_of :: "pydict \<Rightarrow> int option" where
  "expiry_of d = (case dict_get d ''expires_at'' of None \<Rightarrow> Some 0 | Some s \<Rightarrow> py_int s)"

text \<open>The \<open>try\<close> block of \<open>consume_qr_token\<close>. The row is deleted before the expiry text
  is converted, so an exception from the conversion leaves the row deleted.\<close>

definition consume_try :: "faults \<Rightarrow> store \<Rightarrow> string \<Rightarrow> (exn + consumed_token) \<times> store" where
  "consume_try flt st qr_uuid_token =
     (case get_worksheet flt ConsumeQrToken st ''Qr_Tokens'' of
        Inl e \<Rightarrow> (Inl e, st)
      | Inr sh \<Rightarrow>
          if flt ConsumeQrToken ''Qr_Tokens'' Find then (Inl APIError, st)
          else (case find_cell qr_uuid_token 1 sh of
                  None \<Rightarrow> (Inl CellNotFound, st)
                | Some n \<Rightarrow>
                    if flt ConsumeQrToken ''Qr_Tokens'' RowValues then (Inl APIError, st)
                    else if flt ConsumeQrToken ''Qr_Tokens'' HeaderValues then (Inl APIError, st)
                    else
                      let token_data = zip (row_values sh 1) (row_values sh n)
                      in if flt ConsumeQrToken ''Qr_Tokens'' DeleteRows then (Inl APIError, st)
                         else
                           let st' = st\<lparr>sheets := (sheets st)(''Qr_Tokens'' \<mapsto> delete_rows sh n)\<rparr>
                           in (case expiry_of token_data of
                                 None \<Rightarrow> (Inl ValueError, st')
                               | Some e \<Rightarrow>
                                   (Inr \<lparr>token_fields = token_data, token_expires_at = e\<rparr>, st'))))"

definition consume_qr_token :: "faults \<Rightarrow> store \<Rightarrow> string \<Rightarrow> consumed_token option \<times> store" where
  "consume_qr_token flt st qr_uuid_token =
     (if \<not> is_connected st then (None, st)
      else case consume_try flt st qr_uuid_token of
             (Inl e, st') \<Rightarrow> (None, st')
           | (Inr t, st') \<Rightarrow> (Some t, st'))"

section \<open>\<open>main.py\<close>\<close>

definition QR_CODE_EXP_SECONDS :: int where
  "QR_CODE_EXP_SECONDS = 15"

text \<open>
  What a request handler answers when it does not succeed: the \<open>HTTPException\<close>s that
  the handlers and \<open>get_sheets_manager\<close> raise, told apart by status and detail, and
  \<open>InternalError\<close> for an exception that leaves the handler uncaught (the server answers
  500). The store failure of the specification is \<open>InternalError\<close> carrying the
  exception of the failed write.
\<close>

datatype http_error =
    ServiceUnavailable
  | ParticipantNotFound
  | AgendaNotFound
  | InvalidOrUsedToken
  | Expired
  | AgendaMismatch
  | DuplicateCheckIn
  | InternalError exn

record token_request =
  participant_id :: string
  agenda_item_id :: string
  device_id :: string

record checkin_request =
  qr_code_token :: string
  claimed_agenda_item_id :: string
  scanner_device_id :: string

record token_response =
  issued_token :: string
  expires_in :: int

record checkin_response =
  participant_name :: string
  checked_participant_id :: "string option"
  checkin_time :: string

text \<open>\<open>not d\<close> for the result of a lookup: true for \<open>None\<close> and for the empty dict.\<close>

definition falsy :: "pydict option \<Rightarrow> bool" where
  "falsy r = (case r of None \<Rightarrow> True | Some d \<Rightarrow> d = [])"

subsection \<open>Clock readings and their formats\<close>

record datetime =
  dt_year :: nat
  dt_month :: nat
  dt_day :: nat
  dt_hour :: nat
  dt_minute :: nat
  dt_second :: nat
  dt_microsecond :: nat

definition zero_pad :: "nat \<Rightarrow> nat \<Rightarrow> string" where
  "zero_pad w n = replicate (w - length (str_nat n)) (CHR ''0'') @ str_nat n"

text \<open>\<open>datetime.datetime.now(datetime.timezone.utc).isoformat()\<close>\<close>

definition isoformat_utc :: "datetime \<Rightarrow> string" where
  "isoformat_utc d =
     zero_pad 4 (dt_year d) @ ''-'' @ zero_pad 2 (dt_month d) @ ''-'' @ zero_pad 2 (dt_day d)
     @ ''T'' @ zero_pad 2 (dt_hour d) @ '':'' @ zero_pad 2 (dt_minute d) @ '':''
     @ zero_pad 2 (dt_second d)
     @ (if dt_microsecond d = 0 then [] else ''.'' @ zero_pad 6 (dt_microsecond d))
     @ ''+00:00''"

text \<open>\<open>datetime.datetime.now().strftime("%Y-%m-%d %H:%M:%S")\<close>\<close>

definition strftime_local :: "datetime \<Rightarrow> string" where
  "strftime_local d =
     zero_pad 4 (dt_year d) @ ''-'' @ zero_pad 2 (dt_month d) @ ''-'' @ zero_pad 2 (dt_day d)
     @ '' '' @ zero_pad 2 (dt_hour d) @ '':'' @ zero_pad 2 (dt_minute d) @ '':''
     @ zero_pad 2 (dt_second d)"

subsection \<open>Issuing a token\<close>

text \<open>
  \<open>generate_qr_token\<close>, with what it reads from outside as arguments: the calls that
  fail, the fresh \<open>uuid.uuid4()\<close> and the reading of \<open>time.time()\<close>. The dependency
  \<open>get_sheets_manager\<close> runs first.
\<close>

definition generate_qr_token ::
  "faults \<Rightarrow> string \<Rightarrow> real \<Rightarrow> token_request \<Rightarrow> store \<Rightarrow> (http_error + token_response) \<times> store" where
  "generate_qr_token flt uuid4 now request st =
     (if \<not> is_connected st then (Inl ServiceUnavailable, st)
      else if falsy (find_record_by_id flt st ''Participants'' (participant_id request) 1)
      then (Inl ParticipantNotFound, st)
      else if falsy (find_record_by_id flt st ''Agenda_Items'' (agenda_item_id request) 1)
      then (Inl AgendaNotFound, st)
      else
        let expires_at = py_trunc (now + real_of_int QR_CODE_EXP_SECONDS);
            token_payload = \<lparr>payload_token_uuid = uuid4,
                             payload_participant_id = participant_id request,
                             payload_agenda_item_id = agenda_item_id request,
                             payload_device_id = device_id request,
                             payload_expires_at = expires_at\<rparr>
        in case add_qr_token flt st token_payload of
             (Inl e, st') \<Rightarrow> (Inl (InternalError e), st')
           | (Inr u, st') \<Rightarrow>
               (Inr \<lparr>issued_token = uuid4, expires_in = QR_CODE_EXP_SECONDS\<rparr>, st'))"

subsection \<open>Redeeming a token\<close>

text \<open>The default of \<open>participant_data.get('name', ...)\<close>, as its UTF-8 bytes.\<close>

definition unknown_participant :: string where
  "unknown_participant =
     [CHR 0xE6, CHR 0x9C, CHR 0xAA, CHR 0xE7, CHR 0x9F, CHR 0xA5,
      CHR 0xE5, CHR 0xAD, CHR 0xB8, CHR 0xE5, CHR 0x93, CHR 0xA1]"

text \<open>The duplicate test of \<open>check_in\<close>: \<open>any(...)\<close> over the attendance records.\<close>

definition is_already_checked_in :: "pyrecord list \<Rightarrow> string option \<Rightarrow> string option \<Rightarrow> bool" where
  "is_already_checked_in attendance_logs p_id a_id_token =
     list_ex (\<lambda>log. py_eq (record_get log ''participant_id'') p_id
                  \<and> py_eq (record_get log ''agenda_item_id'') a_id_token) attendance_logs"

text \<open>The text a cell takes when the written value may be \<open>None\<close>.\<close>

definition cell_of :: "string option \<Rightarrow> string" where
  "cell_of v = (case v of None \<Rightarrow> [] | Some s \<Rightarrow> s)"

text \<open>
  \<open>check_in\<close>, with what it reads from outside as arguments: the calls that fail, the
  reading of \<open>time.time()\<close> of the expiry test, the UTC clock reading written to the
  log, the fresh \<open>uuid.uuid4()\<close> of the record, and the local clock reading of the
  answer. A lookup of the participant that finds nothing makes \<open>participant_data.get\<close>
  raise \<open>AttributeError\<close>, after the record was written.
\<close>

definition check_in ::
  "faults \<Rightarrow> real \<Rightarrow> datetime \<Rightarrow> string \<Rightarrow> datetime \<Rightarrow> checkin_request \<Rightarrow> store
   \<Rightarrow> (http_error + checkin_response) \<times> store" where
  "check_in flt now utc_now uuid4 local_now request st =
     (if \<not> is_connected st then (Inl ServiceUnavailable, st)
      else case consume_qr_token flt st (qr_code_token request) of
        (None, st1) \<Rightarrow> (Inl InvalidOrUsedToken, st1)
      | (Some token_data, st1) \<Rightarrow>
          if now > real_of_int (token_expires_at token_data) then (Inl Expired, st1)
          else
            let p_id = dict_get (token_fields token_data) ''participant_id'';
                a_id_token = dict_get (token_fields token_data) ''agenda_item_id''
            in if a_id_token \<noteq> Some (claimed_agenda_item_id request)
               then (Inl AgendaMismatch, st1)
               else if is_already_checked_in (get_all_records flt st1 ''Attendance_Log'')
                         p_id a_id_token
               then (Inl DuplicateCheckIn, st1)
               else
                 let checkin_time_utc = isoformat_utc utc_now;
                     log_data = [uuid4, cell_of p_id, claimed_agenda_item_id request,
                                 checkin_time_utc, ''QR_CODE'', scanner_device_id request,
                                 ''TRUE'']
                 in (case append_row flt st1 ''Attendance_Log'' log_data of
                       (Inl e, st2) \<Rightarrow> (Inl (InternalError e), st2)
                     | (Inr u, st2) \<Rightarrow>
                         (case (case p_id of
                                  None \<Rightarrow> None
                                | Some p \<Rightarrow> find_record_by_id flt st2 ''Participants'' p 1) of
                            None \<Rightarrow> (Inl (InternalError AttributeError), st2)
                          | Some participant_data \<Rightarrow>
                              (Inr \<lparr>participant_name =
                                       (case dict_get participant_data ''name'' of
                                          None \<Rightarrow> unknown_participant
                                        | Some nm \<Rightarrow> nm),
                                     checked_participant_id = p_id,
                                     checkin_time = strftime_local local_now\<rparr>, st2))))"

section \<open>Notions used in the statements\<close>

text \<open>Some call that \<open>consume_qr_token\<close> makes to the sheets service fails.\<close>

definition consume_faulty :: "faults \<Rightarrow> bool" where
  "consume_faulty flt =
     (flt ConsumeQrToken ''Qr_Tokens'' Worksheet \<or> flt ConsumeQrToken ''Qr_Tokens'' Find
      \<or> flt ConsumeQrToken ''Qr_Tokens'' RowValues
      \<or> flt ConsumeQrToken ''Qr_Tokens'' HeaderValues
      \<or> flt ConsumeQrToken ''Qr_Tokens'' DeleteRows)"

text \<open>The column names that \<open>WORKSHEET_DEFINITIONS\<close> gives the two worksheets of the
  check-in.\<close>

definition attendance_headers :: row where
  "attendance_headers = [''id'', ''participant_id'', ''agenda_item_id'', ''checkin_time'',
                         ''checkin_method'', ''scanner_device_id'', ''is_valid'']"

definition qr_token_headers :: row where
  "qr_token_headers = [''token_uuid'', ''participant_id'', ''agenda_item_id'', ''device_id'',
                       ''expires_at'']"

text \<open>A small spreadsheet for concrete runs: one participant, one agenda item, an empty
  attendance log and one token that expires at second 15.\<close>

definition demo_store :: store where
  "demo_store =
     \<lparr>is_connected = True,
      sheets = (\<lambda>_. None)
        (''Participants'' \<mapsto> [[''id'', ''name''], [''P001'', ''Ming'']],
         ''Agenda_Items'' \<mapsto> [[''id'', ''event_id''], [''A101'', ''E001'']],
         ''Attendance_Log'' \<mapsto> [attendance_headers],
         ''Qr_Tokens'' \<mapsto> [qr_token_headers, [''t1'', ''P001'', ''A101'', ''d1'', ''15'']])\<rparr>"

definition demo_request :: checkin_request where
  "demo_request = \<lparr>qr_code_token = ''t1'', claimed_agenda_item_id = ''A101'',
                    scanner_device_id = ''s1''\<rparr>"

definition demo_time :: datetime where
  "demo_time = \<lparr>dt_year = 2026, dt_month = 1, dt_day = 10, dt_hour = 9, dt_minute = 0,
                 dt_second = 5, dt_microsecond = 0\<rparr>"

text \<open>The small spreadsheet after its token was redeemed at second 5.\<close>

definition demo_store_after :: store where
  "demo_store_after =
     demo_store\<lparr>sheets := (sheets demo_store)
       (''Qr_Tokens'' \<mapsto> [qr_token_headers],
        ''Attendance_Log'' \<mapsto>
           [attendance_headers,
            [''r1'', ''P001'', ''A101'', ''2026-01-10T09:00:05+00:00'', ''QR_CODE'', ''s1'',
             ''TRUE'']])\<rparr>"




text \<open>An identifier that the record reader leaves as the text it is.\<close>

definition text_id :: "string \<Rightarrow> bool" where
  "text_id s = (numericise s = PStr s)"

text \<open>
  The attendance invariant, on the columns that \<open>WORKSHEET_DEFINITIONS\<close> gives the log:
  among the rows below the header whose \<open>is_valid\<close> cell (column 7) says \<open>TRUE\<close>, no two
  have the same participant id (column 2) and agenda item id (column 3).
\<close>

definition valid_pairs :: "sheet \<Rightarrow> (string \<times> string) list" where
  "valid_pairs sh =
     map (\<lambda>r. (cell_value r 2, cell_value r 3)) (filter (\<lambda>r. cell_value r 7 = ''TRUE'') (tl sh))"

definition no_double_attendance :: "store \<Rightarrow> bool" where
  "no_double_attendance st =
     (case sheets st ''Attendance_Log'' of None \<Rightarrow> True | Some sh \<Rightarrow> distinct (valid_pairs sh))"

text \<open>The two worksheets of the check-in start with their header rows, and the
  participant ids in the token rows are identifiers that stay texts.\<close>

definition sheets_wf :: "store \<Rightarrow> bool" where
  "sheets_wf st =
     ((case sheets st ''Attendance_Log'' of
         None \<Rightarrow> True
       | Some sh \<Rightarrow> sh \<noteq> [] \<and> hd sh = attendance_headers)
      \<and> (case sheets st ''Qr_Tokens'' of
            None \<Rightarrow> True
          | Some sh \<Rightarrow> sh \<noteq> [] \<and> hd sh = qr_token_headers
                       \<and> list_all (\<lambda>r. text_id (cell_value r 2)) (tl sh)))"

text \<open>Requests to the two core operations, each with what it reads from outside, and
  their effect on the spreadsheet when they are served one after the other.\<close>

datatype request_op =
    Issue faults string real token_request
  | Redeem faults real datetime string datetime checkin_request

fun apply_op :: "request_op \<Rightarrow> store \<Rightarrow> store" where
  "apply_op (Issue flt uuid4 now request) st = snd (generate_qr_token flt uuid4 now request st)"
| "apply_op (Redeem flt now utc_now uuid4 local_now request) st =
     snd (check_in flt now utc_now uuid4 local_now request st)"

fun run_ops :: "request_op list \<Rightarrow> store \<Rightarrow> store" where
  "run_ops [] st = st"
| "run_ops (op # ops) st = run_ops ops (apply_op op st)"

text \<open>
  The requests that the invariant is shown for: an issue for a participant id that stays
  a text; a redeem during which the read of the attendance log does not fail, whose token
  is not the header text of the token sheet and whose claimed agenda item id stays a text.
\<close>

fun op_ok :: "request_op \<Rightarrow> bool" where
  "op_ok (Issue flt uuid4 now request) = text_id (participant_id request)"
| "op_ok (Redeem flt now utc_now uuid4 local_now request) =
     (\<not> flt GetAllRecordsM ''Attendance_Log'' Worksheet
      \<and> \<not> flt GetAllRecordsM ''Attendance_Log'' GetAllRecords
      \<and> qr_code_token request \<noteq> ''token_uuid''
      \<and> text_id (claimed_agenda_item_id request))"

section \<open>Facts about the worksheet calls\<close>

lemma find_from_None:
  "find_from k q c sh = None \<longleftrightarrow> q \<notin> set (map (\<lambda>r. cell_value r c) sh)"
  by (induction sh arbitrary: k) auto

lemma find_from_Some:
  "find_from k q c sh = Some n \<Longrightarrow>
     k \<le> n \<and> n < k + length sh \<and> cell_value (sh ! (n - k)) c = q
     \<and> (\<forall>j < n - k. cell_value (sh ! j) c \<noteq> q)"
proof (induction sh arbitrary: k)
  case Nil
  then show ?case by simp
next
  case (Cons r rs)
  show ?case
  proof (cases "cell_value r c = q")
    case True
    with Cons.prems show ?thesis by simp
  next
    case False
    with Cons.prems have f: "find_from (Suc k) q c rs = Some n" by simp
    from Cons.IH [OF f] have a: "Suc k \<le> n" "n < Suc k + length rs"
      "cell_value (rs ! (n - Suc k)) c = q" "\<forall>j < n - Suc k. cell_value (rs ! j) c \<noteq> q"
      by auto
    have nk: "n - k = Suc (n - Suc k)" using a(1) by simp
    have b: "\<forall>j < Suc (n - Suc k). cell_value ((r # rs) ! j) c \<noteq> q"
    proof (intro allI impI)
      fix j assume j: "j < Suc (n - Suc k)"
      show "cell_value ((r # rs) ! j) c \<noteq> q"
      proof (cases j)
        case 0
        then show ?thesis using False by simp
      next
        case (Suc j')
        then show ?thesis using a(4) j by simp
      qed
    qed
    have c: "cell_value ((r # rs) ! Suc (n - Suc k)) c = q" using a(3) by simp
    have d: "k \<le> n" "n < k + length (r # rs)" using a(1,2) by simp_all
    show ?thesis unfolding nk using b c d by blast
  qed
qed

lemma find_cell_Some:
  assumes "find_cell q c sh = Some n"
  shows "1 \<le> n" and "n \<le> length sh" and "cell_value (sh ! (n - 1)) c = q"
    and "\<forall>j < n - 1. cell_value (sh ! j) c \<noteq> q"
proof -
  from assms have "find_from 1 q c sh = Some n" by (simp add: find_cell_def)
  from find_from_Some [OF this]
  have a: "1 \<le> n" "n < 1 + length sh" "cell_value (sh ! (n - 1)) c = q"
    "\<forall>j < n - 1. cell_value (sh ! j) c \<noteq> q" by blast+
  show "1 \<le> n" by (rule a(1))
  show "n \<le> length sh" using a(2) by simp
  show "cell_value (sh ! (n - 1)) c = q" by (rule a(3))
  show "\<forall>j < n - 1. cell_value (sh ! j) c \<noteq> q" by (rule a(4))
qed

lemma find_cell_None:
  "find_cell q c sh = None \<longleftrightarrow> q \<notin> set (map (\<lambda>r. cell_value r c) sh)"
  unfolding find_cell_def by (rule find_from_None)

lemma split_at_row:
  assumes "1 \<le> n" and "n \<le> length sh"
  shows "sh = take (n - 1) sh @ sh ! (n - 1) # drop n sh"
proof -
  have lt: "n - 1 < length sh" and sn: "Suc (n - 1) = n" using assms by simp_all
  show ?thesis using id_take_nth_drop [OF lt] unfolding sn .
qed

lemma find_cell_deleted:
  assumes d: "distinct (map (\<lambda>r. cell_value r c) sh)"
    and f: "find_cell q c sh = Some n"
  shows "find_cell q c (delete_rows sh n) = None"
proof -
  note n = find_cell_Some(1,2) [OF f] and q = find_cell_Some(3) [OF f]
  have "distinct (map (\<lambda>r. cell_value r c) (take (n - 1) sh @ sh ! (n - 1) # drop n sh))"
    by (subst split_at_row [OF n, symmetric]) (rule d)
  then have "cell_value (sh ! (n - 1)) c \<notin> set (map (\<lambda>r. cell_value r c) (take (n - 1) sh @ drop n sh))"
    by simp
  then have "q \<notin> set (map (\<lambda>r. cell_value r c) (take (n - 1) sh @ drop n sh))"
    unfolding q .
  then show ?thesis
    using n(1) by (simp add: find_cell_None delete_rows_def)
qed

section \<open>Facts about \<open>consume_qr_token\<close>\<close>

lemma consume_qr_token_eq:
  "consume_qr_token flt st tok =
     (if \<not> is_connected st \<or> flt ConsumeQrToken ''Qr_Tokens'' Worksheet then (None, st)
      else case sheets st ''Qr_Tokens'' of
        None \<Rightarrow> (None, st)
      | Some sh \<Rightarrow>
         if flt ConsumeQrToken ''Qr_Tokens'' Find then (None, st)
         else (case find_cell tok 1 sh of
           None \<Rightarrow> (None, st)
         | Some n \<Rightarrow>
            if flt ConsumeQrToken ''Qr_Tokens'' RowValues
               \<or> flt ConsumeQrToken ''Qr_Tokens'' HeaderValues
               \<or> flt ConsumeQrToken ''Qr_Tokens'' DeleteRows then (None, st)
            else (map_option (\<lambda>e. \<lparr>token_fields = zip (row_values sh 1) (row_values sh n),
                                    token_expires_at = e\<rparr>)
                    (expiry_of (zip (row_values sh 1) (row_values sh n))),
                  st\<lparr>sheets := (sheets st)(''Qr_Tokens'' \<mapsto> delete_rows sh n)\<rparr>)))"
  by (simp add: consume_qr_token_def consume_try_def get_worksheet_def Let_def
      split: option.splits)

lemma consume_faulty_None:
  assumes "consume_faulty flt"
  shows "consume_qr_token flt st tok = (None, st)"
  using assms unfolding consume_faulty_def consume_qr_token_eq
  by (auto split: option.splits)

lemma consume_qr_token_ok:
  assumes "is_connected st" and "\<not> consume_faulty flt"
    and "sheets st ''Qr_Tokens'' = Some sh" and "find_cell tok 1 sh = Some n"
    and "expiry_of (zip (row_values sh 1) (row_values sh n)) = Some e"
  shows "consume_qr_token flt st tok =
           (Some \<lparr>token_fields = zip (row_values sh 1) (row_values sh n), token_expires_at = e\<rparr>,
            st\<lparr>sheets := (sheets st)(''Qr_Tokens'' \<mapsto> delete_rows sh n)\<rparr>)"
  using assms unfolding consume_faulty_def consume_qr_token_eq by simp

lemma get_all_records_other_sheet:
  assumes "title \<noteq> other"
  shows "get_all_records flt (st\<lparr>sheets := (sheets st)(other \<mapsto> sh)\<rparr>) title
         = get_all_records flt st title"
  using assms by (simp add: get_all_records_def get_worksheet_def)



lemma consume_Some:
  assumes "consume_qr_token flt st tok = (Some t, st1)"
  shows "\<exists>sh n. is_connected st \<and> \<not> consume_faulty flt \<and> sheets st ''Qr_Tokens'' = Some sh
           \<and> find_cell tok 1 sh = Some n
           \<and> expiry_of (zip (row_values sh 1) (row_values sh n)) = Some (token_expires_at t)
           \<and> token_fields t = zip (row_values sh 1) (row_values sh n)
           \<and> st1 = st\<lparr>sheets := (sheets st)(''Qr_Tokens'' \<mapsto> delete_rows sh n)\<rparr>"
  using assms unfolding consume_qr_token_eq consume_faulty_def
  by (auto split: if_splits option.splits)

lemma append_row_Inr:
  assumes "append_row flt st title data = (Inr u, st2)" and "is_connected st"
  shows "\<exists>lg. sheets st title = Some lg \<and> st2 = st\<lparr>sheets := (sheets st)(title \<mapsto> lg @ [data])\<rparr>
           \<and> \<not> flt AppendRowM title Worksheet \<and> \<not> flt AppendRowM title AppendRow"
  using assms unfolding append_row_def get_worksheet_def
  by (auto split: if_splits option.splits)

lemma append_row_Inl:
  assumes "append_row flt st title data = (Inl x, st2)"
  shows "st2 = st"
  using assms unfolding append_row_def get_worksheet_def
  by (auto split: if_splits option.splits)

lemma check_in_consumed:
  assumes "is_connected st"
    and "consume_qr_token flt st (qr_code_token request) = (Some t, st1)"
  shows "check_in flt now utc_now uuid4 local_now request st =
     (if now > real_of_int (token_expires_at t) then (Inl Expired, st1)
      else if dict_get (token_fields t) ''agenda_item_id'' \<noteq> Some (claimed_agenda_item_id request)
      then (Inl AgendaMismatch, st1)
      else if is_already_checked_in (get_all_records flt st1 ''Attendance_Log'')
                (dict_get (token_fields t) ''participant_id'')
                (Some (claimed_agenda_item_id request))
      then (Inl DuplicateCheckIn, st1)
      else (case append_row flt st1 ''Attendance_Log''
                   [uuid4, cell_of (dict_get (token_fields t) ''participant_id''),
                    claimed_agenda_item_id request, isoformat_utc utc_now, ''QR_CODE'',
                    scanner_device_id request, ''TRUE''] of
              (Inl e, st2) \<Rightarrow> (Inl (InternalError e), st2)
            | (Inr u, st2) \<Rightarrow>
                (case (case dict_get (token_fields t) ''participant_id'' of
                         None \<Rightarrow> None
                       | Some p \<Rightarrow> find_record_by_id flt st2 ''Participants'' p 1) of
                   None \<Rightarrow> (Inl (InternalError AttributeError), st2)
                 | Some participant_data \<Rightarrow>
                     (Inr \<lparr>participant_name =
                              (case dict_get participant_data ''name'' of
                                 None \<Rightarrow> unknown_participant
                               | Some nm \<Rightarrow> nm),
                            checked_participant_id = dict_get (token_fields t) ''participant_id'',
                            checkin_time = strftime_local local_now\<rparr>, st2))))"
  using assms by (simp add: check_in_def Let_def)

lemma check_in_not_consumed:
  assumes "is_connected st"
    and "consume_qr_token flt st (qr_code_token request) = (None, st1)"
  shows "check_in flt now utc_now uuid4 local_now request st = (Inl InvalidOrUsedToken, st1)"
  using assms by (simp add: check_in_def)

section \<open>Facts about \<open>check_in\<close>\<close>

lemma check_in_connected:
  assumes "check_in flt now utc_now uuid4 local_now request st = (Inr resp, st')"
  shows "is_connected st"
  using assms by (auto simp: check_in_def split: if_splits)

lemma check_in_success:
  assumes ok: "check_in flt now utc_now uuid4 local_now request st = (Inr resp, st')"
  shows "\<exists>sh n e lg.
           is_connected st \<and> \<not> consume_faulty flt
         \<and> sheets st ''Qr_Tokens'' = Some sh
         \<and> find_cell (qr_code_token request) 1 sh = Some n
         \<and> expiry_of (zip (row_values sh 1) (row_values sh n)) = Some e
         \<and> now \<le> real_of_int e
         \<and> dict_get (zip (row_values sh 1) (row_values sh n)) ''agenda_item_id''
             = Some (claimed_agenda_item_id request)
         \<and> \<not> is_already_checked_in (get_all_records flt st ''Attendance_Log'')
               (dict_get (zip (row_values sh 1) (row_values sh n)) ''participant_id'')
               (Some (claimed_agenda_item_id request))
         \<and> sheets st ''Attendance_Log'' = Some lg
         \<and> st' = st\<lparr>sheets := (sheets st)
                 (''Qr_Tokens'' \<mapsto> delete_rows sh n,
                  ''Attendance_Log'' \<mapsto> lg @
                     [[uuid4,
                       cell_of (dict_get (zip (row_values sh 1) (row_values sh n)) ''participant_id''),
                       claimed_agenda_item_id request, isoformat_utc utc_now, ''QR_CODE'',
                       scanner_device_id request, ''TRUE'']])\<rparr>
         \<and> checked_participant_id resp
             = dict_get (zip (row_values sh 1) (row_values sh n)) ''participant_id''
         \<and> checkin_time resp = strftime_local local_now"
proof -
  have conn: "is_connected st" by (rule check_in_connected [OF ok])
  obtain r st1 where c: "consume_qr_token flt st (qr_code_token request) = (r, st1)"
    by (cases "consume_qr_token flt st (qr_code_token request)")
  have "r \<noteq> None"
  proof
    assume "r = None"
    with c have "consume_qr_token flt st (qr_code_token request) = (None, st1)" by simp
    from check_in_not_consumed [OF conn this, of now utc_now uuid4 local_now] ok
    show False by simp
  qed
  then obtain t where r: "r = Some t" by auto
  from consume_Some [OF c [unfolded r]] obtain sh n where
    f: "\<not> consume_faulty flt" and sh: "sheets st ''Qr_Tokens'' = Some sh"
    and n: "find_cell (qr_code_token request) 1 sh = Some n"
    and e: "expiry_of (zip (row_values sh 1) (row_values sh n)) = Some (token_expires_at t)"
    and tf: "token_fields t = zip (row_values sh 1) (row_values sh n)"
    and st1: "st1 = st\<lparr>sheets := (sheets st)(''Qr_Tokens'' \<mapsto> delete_rows sh n)\<rparr>"
    by blast
  let ?d = "zip (row_values sh 1) (row_values sh n)"
  let ?row = "[uuid4, cell_of (dict_get ?d ''participant_id''),
               claimed_agenda_item_id request, isoformat_utc utc_now, ''QR_CODE'',
               scanner_device_id request, ''TRUE'']"
  note eq = check_in_consumed [OF conn c [unfolded r], of now utc_now uuid4 local_now, unfolded tf]
  have g: "get_all_records flt st1 ''Attendance_Log'' = get_all_records flt st ''Attendance_Log''"
    unfolding st1 by (rule get_all_records_other_sheet) simp
  from ok have nexp: "now \<le> real_of_int (token_expires_at t)"
    unfolding eq by (auto split: if_splits)
  from ok have ag: "dict_get ?d ''agenda_item_id'' = Some (claimed_agenda_item_id request)"
    unfolding eq by (auto split: if_splits)
  from ok have nd: "\<not> is_already_checked_in (get_all_records flt st ''Attendance_Log'')
               (dict_get ?d ''participant_id'') (Some (claimed_agenda_item_id request))"
    unfolding eq g by (auto split: if_splits)
  from ok nexp ag nd obtain u where
    ap: "append_row flt st1 ''Attendance_Log'' ?row = (Inr u, st')"
    and resp: "checked_participant_id resp = dict_get ?d ''participant_id''"
       "checkin_time resp = strftime_local local_now"
    unfolding eq g by (auto split: if_splits prod.splits sum.splits option.splits)
  have conn1: "is_connected st1" unfolding st1 using conn by simp
  from append_row_Inr [OF ap conn1] obtain lg where
    lg: "sheets st1 ''Attendance_Log'' = Some lg"
    and st': "st' = st1\<lparr>sheets := (sheets st1)(''Attendance_Log'' \<mapsto> lg @ [?row])\<rparr>"
    by blast
  have lg0: "sheets st ''Attendance_Log'' = Some lg" using lg unfolding st1 by simp
  have st'': "st' = st\<lparr>sheets := (sheets st)(''Qr_Tokens'' \<mapsto> delete_rows sh n,
                  ''Attendance_Log'' \<mapsto> lg @ [?row])\<rparr>"
    unfolding st' st1 by simp
  show ?thesis
    using conn f sh n e nexp ag nd lg0 st'' resp by blast
qed

section \<open>Evaluating concrete runs\<close>

lemma digit_char_simps:
  "digit_char 0 = CHR ''0''" "digit_char 1 = CHR ''1''" "digit_char 2 = CHR ''2''"
  "digit_char 3 = CHR ''3''" "digit_char 4 = CHR ''4''" "digit_char 5 = CHR ''5''"
  "digit_char 6 = CHR ''6''" "digit_char 7 = CHR ''7''" "digit_char 8 = CHR ''8''"
  "digit_char 9 = CHR ''9''" "digit_char (Suc 0) = CHR ''1''"
  by code_simp+

lemmas sheet_eval = find_cell_def cell_value_def row_values_def delete_rows_def dict_get_def
  records_of_def record_get_def pad_row_def py_eq_def


lemmas int_eval = expiry_of_def py_int_def strip_def is_space_def parse_nat_def is_digit_def
  digit_val_def

lemmas demo_defs = demo_store_def demo_request_def demo_time_def qr_token_headers_def
  attendance_headers_def no_faults_def consume_faulty_def

lemmas manager_eval = consume_qr_token_def consume_try_def get_worksheet_def
  get_all_records_def append_row_def find_record_by_id_def find_record_try_def add_qr_token_def

lemmas format_eval = isoformat_utc_def strftime_local_def zero_pad_def str_nat.simps
  digit_char_simps str_int_def

lemmas check_in_eval = check_in_def is_already_checked_in_def cell_of_def

lemma find_cell_deleted_once:
  assumes once: "length (filter (\<lambda>r. cell_value r c = q) sh) \<le> 1"
    and f: "find_cell q c sh = Some n"
  shows "find_cell q c (delete_rows sh n) = None"
proof -
  note n = find_cell_Some(1,2) [OF f] and q = find_cell_Some(3) [OF f]
  let ?P = "\<lambda>r. cell_value r c = q"
  have "length (filter ?P (take (n - 1) sh @ sh ! (n - 1) # drop n sh)) \<le> 1"
    by (subst split_at_row [OF n, symmetric]) (rule once)
  then have "filter ?P (take (n - 1) sh) = []" and "filter ?P (drop n sh) = []"
    using q by simp_all
  then have "\<forall>r \<in> set (take (n - 1) sh @ drop n sh). cell_value r c \<noteq> q"
    by (auto simp: filter_empty_conv)
  then have "q \<notin> set (map (\<lambda>r. cell_value r c) (take (n - 1) sh @ drop n sh))"
    by auto
  then show ?thesis
    using n(1) by (simp add: find_cell_None delete_rows_def)
qed

lemma consume_absent:
  assumes "sheets st ''Qr_Tokens'' = Some sh" and "find_cell tok 1 sh = None"
  shows "consume_qr_token flt st tok = (None, st)"
  using assms unfolding consume_qr_token_eq by simp

lemma demo_check_in:
  "check_in no_faults 5 demo_time ''r1'' demo_time demo_request demo_store
   = (Inr \<lparr>participant_name = ''Ming'', checked_participant_id = Some ''P001'',
            checkin_time = ''2026-01-10 09:00:05''\<rparr>, demo_store_after)"
  by (simp add: check_in_eval manager_eval sheet_eval int_eval demo_defs format_eval
      demo_store_after_def)



lemma pad_row_nth: "i < w \<Longrightarrow> pad_row w r ! i = cell_value r (Suc i)"
  by (simp add: pad_row_def cell_value_def nth_append)

lemma length_pad_row: "w \<le> length (pad_row w r)"
  by (simp add: pad_row_def)

lemma map_of_rev_distinct: "distinct (map fst xs) \<Longrightarrow> map_of (rev xs) = map_of xs"
proof (induction xs)
  case Nil
  then show ?case by simp
next
  case (Cons x xs)
  obtain k v where x: "x = (k, v)" by (cases x)
  from Cons.prems x have k: "map_of xs k = None" and d: "distinct (map fst xs)"
    by (auto simp: map_of_eq_None_iff)
  show ?case
  proof (rule ext)
    fix j
    show "map_of (rev (x # xs)) j = map_of (x # xs) j"
      using k Cons.IH [OF d] x by (simp add: map_add_def split: option.splits)
  qed
qed

lemma zip_take_right: "zip xs ys = zip xs (take (length xs) ys)"
  by (induction xs ys rule: list_induct2') auto

lemma lookup_zip_nth:
  assumes "distinct hs" and "i < length hs" and "length hs \<le> length vs"
  shows "map_of (rev (zip hs vs)) (hs ! i) = Some (vs ! i)"
proof -
  let ?vs = "take (length hs) vs"
  have z: "zip hs vs = zip hs ?vs" by (rule zip_take_right)
  have l: "length hs = length ?vs" using assms(3) by simp
  have "distinct (map fst (zip hs ?vs))" using assms(1) l by simp
  then have "map_of (rev (zip hs ?vs)) = map_of (zip hs ?vs)" by (rule map_of_rev_distinct)
  moreover have "map_of (zip hs ?vs) (hs ! i) = Some (?vs ! i)"
    using l assms(1,2) by (intro map_of_zip_nth) simp_all
  ultimately show ?thesis using assms(2) unfolding z by simp
qed

lemma attendance_record_ids:
  "record_get (zip attendance_headers (map numericise (pad_row (length attendance_headers) r)))
     ''participant_id'' = Some (numericise (cell_value r 2))"
  "record_get (zip attendance_headers (map numericise (pad_row (length attendance_headers) r)))
     ''agenda_item_id'' = Some (numericise (cell_value r 3))"
proof -
  let ?vs = "map numericise (pad_row (length attendance_headers) r)"
  have d: "distinct attendance_headers" by (simp add: attendance_headers_def)
  have n: "length attendance_headers = 7" by (simp add: attendance_headers_def)
  have l: "length attendance_headers \<le> length ?vs" using length_pad_row by simp
  have k1: "attendance_headers ! 1 = ''participant_id''"
    and k2: "attendance_headers ! 2 = ''agenda_item_id''"
    by (simp_all add: attendance_headers_def)
  have v1: "?vs ! 1 = numericise (cell_value r 2)"
  proof -
    have "1 < length (pad_row (length attendance_headers) r)"
      using length_pad_row [of "length attendance_headers" r] n by simp
    then have "?vs ! 1 = numericise (pad_row (length attendance_headers) r ! 1)" by simp
    also have "pad_row (length attendance_headers) r ! 1 = cell_value r (Suc 1)"
      by (rule pad_row_nth) (simp add: n)
    finally show ?thesis by (simp add: numeral_2_eq_2)
  qed
  have v2: "?vs ! 2 = numericise (cell_value r 3)"
  proof -
    have "2 < length (pad_row (length attendance_headers) r)"
      using length_pad_row [of "length attendance_headers" r] n by simp
    then have "?vs ! 2 = numericise (pad_row (length attendance_headers) r ! 2)" by simp
    also have "pad_row (length attendance_headers) r ! 2 = cell_value r (Suc 2)"
      by (rule pad_row_nth) (simp add: n)
    finally show ?thesis by (simp add: numeral_3_eq_3)
  qed
  have "map_of (rev (zip attendance_headers ?vs)) (attendance_headers ! 1) = Some (?vs ! 1)"
    by (rule lookup_zip_nth [OF d _ l]) (simp add: n)
  then show "record_get (zip attendance_headers ?vs) ''participant_id''
             = Some (numericise (cell_value r 2))"
    unfolding record_get_def k1 v1 .
  have "map_of (rev (zip attendance_headers ?vs)) (attendance_headers ! 2) = Some (?vs ! 2)"
    by (rule lookup_zip_nth [OF d _ l]) (simp add: n)
  then show "record_get (zip attendance_headers ?vs) ''agenda_item_id''
             = Some (numericise (cell_value r 3))"
    unfolding record_get_def k2 v2 .
qed

lemma get_all_records_ok:
  assumes "is_connected st" and "sheets st title = Some sh"
    and "\<not> flt GetAllRecordsM title Worksheet" and "\<not> flt GetAllRecordsM title GetAllRecords"
  shows "get_all_records flt st title = records_of sh"
  using assms by (simp add: get_all_records_def get_worksheet_def)

lemma is_already_checked_in_attendance:
  "is_already_checked_in (records_of (attendance_headers # rows)) (Some p) (Some a) \<longleftrightarrow>
     (\<exists>r \<in> set rows. numericise (cell_value r 2) = PStr p \<and> numericise (cell_value r 3) = PStr a)"
proof -
  have e: "py_eq (Some v) (Some t) \<longleftrightarrow> v = PStr t" for v t
    by (cases v) (auto simp: py_eq_def)
  show ?thesis
    by (simp add: is_already_checked_in_def records_of_def list_ex_iff attendance_record_ids e)
qed

lemma is_digit_digit_char: "d < 10 \<Longrightarrow> is_digit (digit_char d)"
  by (simp add: is_digit_def digit_char_def)

lemma str_nat_digits: "\<forall>c \<in> set (str_nat n). is_digit c"
proof (induction n rule: str_nat.induct)
  case (1 n)
  show ?case
  proof (cases "n < 10")
    case True
    then show ?thesis by (subst str_nat.simps) (simp add: is_digit_digit_char)
  next
    case False
    with 1 have "\<forall>c \<in> set (str_nat (n div 10)). is_digit c" by simp
    with False show ?thesis by (subst str_nat.simps) (simp add: is_digit_digit_char)
  qed
qed

lemma zero_pad_digits: "\<forall>c \<in> set (zero_pad w n). is_digit c"
  using str_nat_digits by (auto simp: zero_pad_def is_digit_def)

lemma plus_not_in_zero_pad: "CHR ''+'' \<notin> set (zero_pad w n)"
  using zero_pad_digits [of w n] by (auto simp: is_digit_def)

lemma plus_in_isoformat_utc: "CHR ''+'' \<in> set (isoformat_utc d)"
  by (simp add: isoformat_utc_def)

lemma plus_not_in_strftime_local: "CHR ''+'' \<notin> set (strftime_local d)"
  by (simp add: strftime_local_def plus_not_in_zero_pad)

lemma isoformat_utc_neq_strftime_local: "isoformat_utc a \<noteq> strftime_local b"
  using plus_in_isoformat_utc [of a] plus_not_in_strftime_local [of b] by metis












lemma add_qr_token_Inr:
  assumes "add_qr_token flt st payload = (Inr u, st')" and "is_connected st"
  shows "\<exists>sh. sheets st ''Qr_Tokens'' = Some sh
           \<and> st' = st\<lparr>sheets := (sheets st)(''Qr_Tokens'' \<mapsto> sh @
                 [[payload_token_uuid payload, payload_participant_id payload,
                   payload_agenda_item_id payload, payload_device_id payload,
                   str_int (payload_expires_at payload)]])\<rparr>"
  using assms unfolding add_qr_token_def get_worksheet_def
  by (auto simp: Let_def split: if_splits option.splits)




lemma consume_tokens_effect:
  assumes "consume_qr_token flt st tok = (r, st1)"
  shows "st1 = st \<or> (\<exists>sh n. is_connected st \<and> sheets st ''Qr_Tokens'' = Some sh
            \<and> find_cell tok 1 sh = Some n
            \<and> st1 = st\<lparr>sheets := (sheets st)(''Qr_Tokens'' \<mapsto> delete_rows sh n)\<rparr>)"
  using assms unfolding consume_qr_token_eq
  by (auto split: if_splits option.splits)

lemma check_in_effect:
  assumes out: "check_in flt now utc_now uuid4 local_now request st = (out, st')"
  shows "st' = st
       \<or> (\<exists>sh n. is_connected st \<and> sheets st ''Qr_Tokens'' = Some sh
             \<and> find_cell (qr_code_token request) 1 sh = Some n
             \<and> (st' = st\<lparr>sheets := (sheets st)(''Qr_Tokens'' \<mapsto> delete_rows sh n)\<rparr>
                \<or> (\<exists>lg. dict_get (zip (row_values sh 1) (row_values sh n)) ''agenda_item_id''
                            = Some (claimed_agenda_item_id request)
                      \<and> \<not> is_already_checked_in (get_all_records flt st ''Attendance_Log'')
                            (dict_get (zip (row_values sh 1) (row_values sh n)) ''participant_id'')
                            (Some (claimed_agenda_item_id request))
                      \<and> sheets st ''Attendance_Log'' = Some lg
                      \<and> st' = st\<lparr>sheets := (sheets st)
                            (''Qr_Tokens'' \<mapsto> delete_rows sh n,
                             ''Attendance_Log'' \<mapsto> lg @
                               [[uuid4,
                                 cell_of (dict_get (zip (row_values sh 1) (row_values sh n))
                                            ''participant_id''),
                                 claimed_agenda_item_id request, isoformat_utc utc_now,
                                 ''QR_CODE'', scanner_device_id request, ''TRUE'']])\<rparr>)))"
proof (cases "is_connected st")
  case False
  with out show ?thesis by (simp add: check_in_def)
next
  case conn: True
  obtain r st1 where c: "consume_qr_token flt st (qr_code_token request) = (r, st1)"
    by (cases "consume_qr_token flt st (qr_code_token request)")
  show ?thesis
  proof (cases r)
    case None
    from check_in_not_consumed [OF conn c [unfolded None], of now utc_now uuid4 local_now] out
    have "st' = st1" by simp
    with consume_tokens_effect [OF c] show ?thesis by blast
  next
    case (Some t)
    from consume_Some [OF c [unfolded Some]] obtain sh n where
      sh: "sheets st ''Qr_Tokens'' = Some sh"
      and n: "find_cell (qr_code_token request) 1 sh = Some n"
      and tf: "token_fields t = zip (row_values sh 1) (row_values sh n)"
      and st1: "st1 = st\<lparr>sheets := (sheets st)(''Qr_Tokens'' \<mapsto> delete_rows sh n)\<rparr>"
      by blast
    define d where "d = zip (row_values sh 1) (row_values sh n)"
    define row where "row = [uuid4, cell_of (dict_get d ''participant_id''),
               claimed_agenda_item_id request, isoformat_utc utc_now, ''QR_CODE'',
               scanner_device_id request, ''TRUE'']"
    have tf': "token_fields t = d" using tf unfolding d_def .
    note eq = check_in_consumed [OF conn c [unfolded Some], of now utc_now uuid4 local_now,
        unfolded tf' row_def [symmetric]]
    have g: "get_all_records flt st1 ''Attendance_Log'' = get_all_records flt st ''Attendance_Log''"
      unfolding st1 by (rule get_all_records_other_sheet) simp
    have conn1: "is_connected st1" unfolding st1 using conn by simp
    consider (stopped) "st' = st1"
      | (logged) "dict_get d ''agenda_item_id'' = Some (claimed_agenda_item_id request)"
          "\<not> is_already_checked_in (get_all_records flt st ''Attendance_Log'')
                (dict_get d ''participant_id'') (Some (claimed_agenda_item_id request))"
          "st' = snd (append_row flt st1 ''Attendance_Log'' row)"
      using out unfolding eq g
      by (auto split: if_splits prod.splits sum.splits option.splits)
    then show ?thesis
    proof cases
      case stopped
      with conn sh n st1 show ?thesis by blast
    next
      case logged
      obtain res st2 where ap: "append_row flt st1 ''Attendance_Log'' row = (res, st2)"
        by (cases "append_row flt st1 ''Attendance_Log'' row")
      with logged(3) have s2: "st' = st2" by simp
      show ?thesis
      proof (cases res)
        case (Inl x)
        from append_row_Inl [OF ap [unfolded Inl]] s2 have "st' = st1" by simp
        with conn sh n st1 show ?thesis by blast
      next
        case (Inr u)
        from append_row_Inr [OF ap [unfolded Inr] conn1] obtain lg where
          lg: "sheets st1 ''Attendance_Log'' = Some lg"
          and st2: "st2 = st1\<lparr>sheets := (sheets st1)(''Attendance_Log'' \<mapsto> lg @ [row])\<rparr>"
          by blast
        have lg0: "sheets st ''Attendance_Log'' = Some lg" using lg unfolding st1 by simp
        have "st' = st\<lparr>sheets := (sheets st)(''Qr_Tokens'' \<mapsto> delete_rows sh n,
                             ''Attendance_Log'' \<mapsto> lg @ [row])\<rparr>"
          unfolding s2 st2 st1 by simp
        with conn sh n logged(1,2) lg0 show ?thesis unfolding d_def row_def by blast
      qed
    qed
  qed
qed

lemma token_dict_ids:
  assumes "dict_get (zip qr_token_headers r) ''agenda_item_id'' = Some a"
  shows "dict_get (zip qr_token_headers r) ''participant_id'' = Some (cell_value r 2)"
    and "cell_value r 3 = a"
proof -
  consider "r = []" | x1 where "r = [x1]" | x1 x2 where "r = [x1, x2]"
    | x1 x2 x3 rest where "r = x1 # x2 # x3 # rest"
    by (cases r; cases "tl r"; cases "tl (tl r)") auto
  then have "dict_get (zip qr_token_headers r) ''participant_id'' = Some (cell_value r 2)
             \<and> cell_value r 3 = a"
  proof cases
    case 1
    with assms show ?thesis by (simp add: dict_get_def qr_token_headers_def)
  next
    case 2
    with assms show ?thesis by (simp add: dict_get_def qr_token_headers_def)
  next
    case 3
    with assms show ?thesis by (simp add: dict_get_def qr_token_headers_def)
  next
    case 4
    have z: "zip qr_token_headers (x1 # x2 # x3 # rest) =
        (''token_uuid'', x1) # (''participant_id'', x2) # (''agenda_item_id'', x3)
        # zip [''device_id'', ''expires_at''] rest"
      by (simp add: qr_token_headers_def)
    have k: "''participant_id'' \<notin> fst ` set (zip [''device_id'', ''expires_at''] rest)"
      "''agenda_item_id'' \<notin> fst ` set (zip [''device_id'', ''expires_at''] rest)"
      by (auto dest!: set_zip_leftD)
    have n: "map_of (rev (zip [''device_id'', ''expires_at''] rest)) ''participant_id'' = None"
      "map_of (rev (zip [''device_id'', ''expires_at''] rest)) ''agenda_item_id'' = None"
      using k by (simp_all add: map_of_eq_None_iff)
    show ?thesis
      using assms unfolding 4 z by (simp add: dict_get_def cell_value_def map_add_def n)
  qed
  then show "dict_get (zip qr_token_headers r) ''participant_id'' = Some (cell_value r 2)"
    and "cell_value r 3 = a" by simp_all
qed

lemma row_values_hd: "sh \<noteq> [] \<Longrightarrow> row_values sh 1 = hd sh"
  by (cases sh) (simp_all add: row_values_def)

lemma found_below_header:
  assumes "sh \<noteq> []" and "cell_value (hd sh) c \<noteq> q" and "find_cell q c sh = Some n"
  shows "2 \<le> n"
proof (rule ccontr)
  assume "\<not> 2 \<le> n"
  with find_cell_Some(1) [OF assms(3)] have "n = 1" by simp
  with find_cell_Some(3) [OF assms(3)] assms(1) have "cell_value (hd sh) c = q"
    by (simp add: hd_conv_nth)
  with assms(2) show False by simp
qed

lemma row_values_in_tl:
  assumes "2 \<le> n" and "n \<le> length sh"
  shows "row_values sh n \<in> set (tl sh)"
proof -
  obtain h rest where sh: "sh = h # rest" using assms by (cases sh) auto
  obtain m where n: "n = Suc (Suc m)" using assms(1) by (cases n; cases "n - 1") auto
  have m: "m < length rest" using assms(2) unfolding sh n by simp
  have "row_values sh n = rest ! m" using m unfolding sh n by (simp add: row_values_def)
  with m show ?thesis unfolding sh by simp
qed

lemma delete_rows_below_header:
  assumes "sh \<noteq> []" and "2 \<le> n"
  shows "delete_rows sh n \<noteq> []" and "hd (delete_rows sh n) = hd sh"
    and "set (tl (delete_rows sh n)) \<subseteq> set (tl sh)"
proof -
  obtain h rest where sh: "sh = h # rest" using assms(1) by (cases sh) auto
  obtain m where n: "n = Suc (Suc m)" using assms(2) by (cases n; cases "n - 1") auto
  have d: "delete_rows sh n = h # (take m rest @ drop (Suc m) rest)"
    unfolding sh n by (simp add: delete_rows_def)
  show "delete_rows sh n \<noteq> []" and "hd (delete_rows sh n) = hd sh"
    unfolding d by (simp_all add: sh)
  have t: "tl (delete_rows sh n) = take m rest @ drop (Suc m) rest" unfolding d by simp
  have r: "tl sh = rest" unfolding sh by simp
  show "set (tl (delete_rows sh n)) \<subseteq> set (tl sh)"
    unfolding t r using set_take_subset [of m rest] set_drop_subset [of "Suc m" rest] by auto
qed

lemma valid_pairs_append:
  assumes "sh \<noteq> []"
  shows "valid_pairs (sh @ [r]) =
         valid_pairs sh @ (if cell_value r 7 = ''TRUE'' then [(cell_value r 2, cell_value r 3)] else [])"
  using assms by (simp add: valid_pairs_def)

lemma valid_pairs_member:
  assumes "(p, a) \<in> set (valid_pairs sh)"
  shows "\<exists>r \<in> set (tl sh). cell_value r 2 = p \<and> cell_value r 3 = a"
  using assms by (auto simp: valid_pairs_def)

lemma tokens_wf_after_delete:
  assumes wf: "sh \<noteq> []" "hd sh = qr_token_headers"
      "list_all (\<lambda>r. text_id (cell_value r 2)) (tl sh)"
    and tok: "tok \<noteq> ''token_uuid''"
    and n: "find_cell tok 1 sh = Some n"
  shows "delete_rows sh n \<noteq> []" and "hd (delete_rows sh n) = qr_token_headers"
    and "list_all (\<lambda>r. text_id (cell_value r 2)) (tl (delete_rows sh n))"
    and "row_values sh n \<in> set (tl sh)"
proof -
  have "cell_value (hd sh) 1 \<noteq> tok"
    using tok unfolding wf(2) by (simp add: cell_value_def qr_token_headers_def)
  from found_below_header [OF wf(1) this n] have n2: "2 \<le> n" .
  note d = delete_rows_below_header [OF wf(1) n2]
  show "delete_rows sh n \<noteq> []" by (rule d(1))
  show "hd (delete_rows sh n) = qr_token_headers" using d(2) wf(2) by simp
  show "list_all (\<lambda>r. text_id (cell_value r 2)) (tl (delete_rows sh n))"
    using d(3) wf(3) by (auto simp: list_all_iff)
  show "row_values sh n \<in> set (tl sh)"
    by (rule row_values_in_tl [OF n2 find_cell_Some(2) [OF n]])
qed

lemma check_in_preserves:
  assumes wf: "sheets_wf st" and inv: "no_double_attendance st"
    and ok: "op_ok (Redeem flt now utc_now uuid4 local_now request)"
  shows "sheets_wf (snd (check_in flt now utc_now uuid4 local_now request st))
       \<and> no_double_attendance (snd (check_in flt now utc_now uuid4 local_now request st))"
proof -
  obtain out st' where out: "check_in flt now utc_now uuid4 local_now request st = (out, st')"
    by (cases "check_in flt now utc_now uuid4 local_now request st")
  from ok have scan: "\<not> flt GetAllRecordsM ''Attendance_Log'' Worksheet"
      "\<not> flt GetAllRecordsM ''Attendance_Log'' GetAllRecords"
    and tok: "qr_code_token request \<noteq> ''token_uuid''"
    and ta: "text_id (claimed_agenda_item_id request)"
    by simp_all
  from check_in_effect [OF out]
  consider (same) "st' = st"
    | (deleted) sh n where "is_connected st" "sheets st ''Qr_Tokens'' = Some sh"
        "find_cell (qr_code_token request) 1 sh = Some n"
        "st' = st\<lparr>sheets := (sheets st)(''Qr_Tokens'' \<mapsto> delete_rows sh n)\<rparr>"
    | (logged) sh n lg where "is_connected st" "sheets st ''Qr_Tokens'' = Some sh"
        "find_cell (qr_code_token request) 1 sh = Some n"
        "dict_get (zip (row_values sh 1) (row_values sh n)) ''agenda_item_id''
           = Some (claimed_agenda_item_id request)"
        "\<not> is_already_checked_in (get_all_records flt st ''Attendance_Log'')
              (dict_get (zip (row_values sh 1) (row_values sh n)) ''participant_id'')
              (Some (claimed_agenda_item_id request))"
        "sheets st ''Attendance_Log'' = Some lg"
        "st' = st\<lparr>sheets := (sheets st)
              (''Qr_Tokens'' \<mapsto> delete_rows sh n,
               ''Attendance_Log'' \<mapsto> lg @
                 [[uuid4,
                   cell_of (dict_get (zip (row_values sh 1) (row_values sh n)) ''participant_id''),
                   claimed_agenda_item_id request, isoformat_utc utc_now,
                   ''QR_CODE'', scanner_device_id request, ''TRUE'']])\<rparr>"
    by blast
  then have "sheets_wf st' \<and> no_double_attendance st'"
  proof cases
    case same
    with wf inv show ?thesis by simp
  next
    case deleted
    from wf deleted(2) have w: "sh \<noteq> []" "hd sh = qr_token_headers"
      "list_all (\<lambda>r. text_id (cell_value r 2)) (tl sh)"
      by (simp_all add: sheets_wf_def)
    note t = tokens_wf_after_delete [OF w tok deleted(3)]
    have "sheets_wf st'"
      using wf t(1,2,3) unfolding deleted(4) by (simp add: sheets_wf_def)
    moreover have "no_double_attendance st'"
      using inv unfolding deleted(4) by (simp add: no_double_attendance_def)
    ultimately show ?thesis ..
  next
    case logged
    from wf logged(2) have w: "sh \<noteq> []" "hd sh = qr_token_headers"
      "list_all (\<lambda>r. text_id (cell_value r 2)) (tl sh)"
      by (simp_all add: sheets_wf_def)
    note t = tokens_wf_after_delete [OF w tok logged(3)]
    from wf logged(6) have l: "lg \<noteq> []" "hd lg = attendance_headers"
      by (simp_all add: sheets_wf_def)
    then obtain rows where lg: "lg = attendance_headers # rows" by (cases lg) auto
    define r where "r = row_values sh n"
    define p where "p = cell_value r 2"
    define a where "a = claimed_agenda_item_id request"
    have d: "zip (row_values sh 1) (row_values sh n) = zip qr_token_headers r"
      unfolding r_def row_values_hd [OF w(1)] w(2) ..
    have pid: "dict_get (zip qr_token_headers r) ''participant_id'' = Some p"
      unfolding p_def by (rule token_dict_ids(1)) (rule logged(4) [unfolded d])
    have tp: "text_id p"
      using t(4) w(3) unfolding p_def r_def by (auto simp: list_all_iff)
    have "get_all_records flt st ''Attendance_Log'' = records_of (attendance_headers # rows)"
      using logged(1) logged(6) scan unfolding lg by (rule get_all_records_ok)
    with logged(5) have "\<not> is_already_checked_in (records_of (attendance_headers # rows))
          (Some p) (Some a)"
      unfolding d pid a_def by simp
    then have "\<not> (\<exists>x \<in> set rows. numericise (cell_value x 2) = PStr p
                    \<and> numericise (cell_value x 3) = PStr a)"
      unfolding is_already_checked_in_attendance .
    then have absent: "\<not> (\<exists>x \<in> set rows. cell_value x 2 = p \<and> cell_value x 3 = a)"
      using tp ta unfolding text_id_def a_def [symmetric] by auto
    have new: "(p, a) \<notin> set (valid_pairs lg)"
    proof
      assume "(p, a) \<in> set (valid_pairs lg)"
      from valid_pairs_member [OF this] absent show False unfolding lg by simp
    qed
    define row where "row = [uuid4, cell_of (Some p), a, isoformat_utc utc_now,
                   ''QR_CODE'', scanner_device_id request, ''TRUE'']"
    have st': "st' = st\<lparr>sheets := (sheets st)
              (''Qr_Tokens'' \<mapsto> delete_rows sh n, ''Attendance_Log'' \<mapsto> lg @ [row])\<rparr>"
      using logged(7) unfolding d pid row_def a_def .
    have rc: "cell_value row 2 = p" "cell_value row 3 = a" "cell_value row 7 = ''TRUE''"
      by (simp_all add: row_def cell_value_def cell_of_def)
    have "distinct (valid_pairs lg)"
      using inv logged(6) by (simp add: no_double_attendance_def)
    then have "distinct (valid_pairs (lg @ [row]))"
      using new by (simp add: valid_pairs_append [OF l(1)] rc)
    then have "no_double_attendance st'"
      unfolding st' by (simp add: no_double_attendance_def)
    moreover have "sheets_wf st'"
      using l t(1,2,3) unfolding st' by (simp add: sheets_wf_def)
    ultimately show ?thesis by simp
  qed
  then show ?thesis unfolding out by simp
qed

lemma add_qr_token_Inl:
  assumes "add_qr_token flt st payload = (Inl x, st')"
  shows "st' = st"
  using assms unfolding add_qr_token_def get_worksheet_def
  by (auto simp: Let_def split: if_splits option.splits)

lemma generate_qr_token_effect:
  assumes "generate_qr_token flt uuid4 now request st = (out, st')"
  shows "st' = st
       \<or> (\<exists>sh. sheets st ''Qr_Tokens'' = Some sh
             \<and> st' = st\<lparr>sheets := (sheets st)(''Qr_Tokens'' \<mapsto> sh @
                   [[uuid4, participant_id request, agenda_item_id request, device_id request,
                     str_int (py_trunc (now + real_of_int QR_CODE_EXP_SECONDS))]])\<rparr>)"
proof (cases "is_connected st")
  case False
  with assms show ?thesis by (simp add: generate_qr_token_def)
next
  case True
  let ?payload = "\<lparr>payload_token_uuid = uuid4, payload_participant_id = participant_id request,
                   payload_agenda_item_id = agenda_item_id request,
                   payload_device_id = device_id request,
                   payload_expires_at = py_trunc (now + real_of_int QR_CODE_EXP_SECONDS)\<rparr>"
  obtain res st2 where ad: "add_qr_token flt st ?payload = (res, st2)"
    by (cases "add_qr_token flt st ?payload")
  from assms True ad have "st' = st \<or> st' = st2"
    by (auto simp: generate_qr_token_def Let_def split: if_splits sum.splits)
  moreover have "st2 = st \<or> (\<exists>sh. sheets st ''Qr_Tokens'' = Some sh
             \<and> st2 = st\<lparr>sheets := (sheets st)(''Qr_Tokens'' \<mapsto> sh @
                   [[uuid4, participant_id request, agenda_item_id request, device_id request,
                     str_int (py_trunc (now + real_of_int QR_CODE_EXP_SECONDS))]])\<rparr>)"
  proof (cases res)
    case (Inl x)
    with add_qr_token_Inl ad show ?thesis by blast
  next
    case (Inr u)
    with add_qr_token_Inr [OF ad [unfolded Inr] True] show ?thesis by simp
  qed
  ultimately show ?thesis by blast
qed

lemma generate_qr_token_preserves:
  assumes wf: "sheets_wf st" and inv: "no_double_attendance st"
    and ok: "op_ok (Issue flt uuid4 now request)"
  shows "sheets_wf (snd (generate_qr_token flt uuid4 now request st))
       \<and> no_double_attendance (snd (generate_qr_token flt uuid4 now request st))"
proof -
  obtain out st' where out: "generate_qr_token flt uuid4 now request st = (out, st')"
    by (cases "generate_qr_token flt uuid4 now request st")
  from generate_qr_token_effect [OF out]
  consider "st' = st"
    | sh where "sheets st ''Qr_Tokens'' = Some sh"
        "st' = st\<lparr>sheets := (sheets st)(''Qr_Tokens'' \<mapsto> sh @
                   [[uuid4, participant_id request, agenda_item_id request, device_id request,
                     str_int (py_trunc (now + real_of_int QR_CODE_EXP_SECONDS))]])\<rparr>"
    by blast
  then have "sheets_wf st' \<and> no_double_attendance st'"
  proof cases
    case 1
    with wf inv show ?thesis by simp
  next
    case 2
    from wf 2(1) have w: "sh \<noteq> []" "hd sh = qr_token_headers"
      "list_all (\<lambda>r. text_id (cell_value r 2)) (tl sh)"
      by (simp_all add: sheets_wf_def)
    from ok have "text_id (participant_id request)" by simp
    then have "sheets_wf st'"
      using wf w unfolding 2(2) by (simp add: sheets_wf_def cell_value_def)
    moreover have "no_double_attendance st'"
      using inv unfolding 2(2) by (simp add: no_double_attendance_def)
    ultimately show ?thesis ..
  qed
  then show ?thesis unfolding out by simp
qed

lemma apply_op_preserves:
  assumes "sheets_wf st" and "no_double_attendance st" and "op_ok op"
  shows "sheets_wf (apply_op op st) \<and> no_double_attendance (apply_op op st)"
proof (cases op)
  case (Issue flt uuid4 now request)
  with generate_qr_token_preserves [OF assms(1,2)] assms(3) show ?thesis by simp
next
  case (Redeem flt now utc_now uuid4 local_now request)
  with check_in_preserves [OF assms(1,2)] assms(3) show ?thesis by simp
qed

lemma run_ops_preserves:
  assumes "sheets_wf st" and "no_double_attendance st" and "\<forall>op \<in> set ops. op_ok op"
  shows "sheets_wf (run_ops ops st) \<and> no_double_attendance (run_ops ops st)"
  using assms
proof (induction ops arbitrary: st)
  case Nil
  then show ?case by simp
next
  case (Cons op ops)
  from apply_op_preserves [OF Cons.prems(1,2)] Cons.prems(3)
  have "sheets_wf (apply_op op st)" "no_double_attendance (apply_op op st)" by simp_all
  from Cons.IH [OF this] Cons.prems(3) show ?case by simp
qed

lemma find_from_find:
  "find_from k q c sh = Some n \<Longrightarrow>
     List.find (\<lambda>r. cell_value r c = q) sh = Some (sh ! (n - k)) \<and> k \<le> n \<and> n - k < length sh"
proof (induction sh arbitrary: k)
  case Nil
  then show ?case by simp
next
  case (Cons r rs)
  show ?case
  proof (cases "cell_value r c = q")
    case True
    with Cons.prems show ?thesis by simp
  next
    case False
    with Cons.prems have "find_from (Suc k) q c rs = Some n" by simp
    from Cons.IH [OF this] have a: "List.find (\<lambda>r. cell_value r c = q) rs = Some (rs ! (n - Suc k))"
      "Suc k \<le> n" "n - Suc k < length rs" by simp_all
    have nk: "n - k = Suc (n - Suc k)" using a(2) by simp
    show ?thesis using a False unfolding nk by simp
  qed
qed

lemma find_find_from:
  "List.find (\<lambda>r. cell_value r c = q) sh = Some r \<Longrightarrow>
     \<exists>n. find_from k q c sh = Some n \<and> k \<le> n \<and> n - k < length sh \<and> sh ! (n - k) = r"
proof (induction sh arbitrary: k)
  case Nil
  then show ?case by simp
next
  case (Cons x xs)
  show ?case
  proof (cases "cell_value x c = q")
    case True
    with Cons.prems show ?thesis by simp
  next
    case False
    with Cons.prems have "List.find (\<lambda>r. cell_value r c = q) xs = Some r" by simp
    from Cons.IH [OF this, of "Suc k"] obtain n where
      a: "find_from (Suc k) q c xs = Some n" "Suc k \<le> n" "n - Suc k < length xs"
         "xs ! (n - Suc k) = r" by blast
    have nk: "n - k = Suc (n - Suc k)" using a(2) by simp
    have "find_from k q c (x # xs) = Some n \<and> k \<le> n \<and> n - k < length (x # xs)
          \<and> (x # xs) ! (n - k) = r"
      using a False unfolding nk by simp
    then show ?thesis by blast
  qed
qed

lemma find_skip:
  "i < length sh \<Longrightarrow> \<not> P (sh ! i) \<Longrightarrow> List.find P (take i sh @ drop (Suc i) sh) = List.find P sh"
proof (induction sh arbitrary: i)
  case Nil
  then show ?case by simp
next
  case (Cons x xs)
  show ?case
  proof (cases i)
    case 0
    with Cons.prems show ?thesis by simp
  next
    case (Suc j)
    with Cons.prems have "j < length xs" "\<not> P (xs ! j)" by simp_all
    from Cons.IH [OF this] show ?thesis unfolding Suc by simp
  qed
qed

lemma find_after_delete_other:
  assumes n: "find_cell q c sh = Some n" and n': "find_cell q' c sh = Some n'" and ne: "q \<noteq> q'"
  shows "\<exists>m. find_cell q' c (delete_rows sh n) = Some m
            \<and> row_values (delete_rows sh n) m = row_values sh n'"
proof -
  let ?P = "\<lambda>r. cell_value r c = q'"
  note a = find_cell_Some [OF n] and b = find_cell_Some [OF n']
  have i: "n - 1 < length sh" and sn: "Suc (n - 1) = n" using a(1,2) by simp_all
  have "\<not> ?P (sh ! (n - 1))" using a(3) ne by simp
  from find_skip [of "n - 1" sh ?P, OF i this]
  have "List.find ?P (delete_rows sh n) = List.find ?P sh"
    using a(1) unfolding sn by (simp add: delete_rows_def)
  also have "\<dots> = Some (sh ! (n' - 1))"
    using find_from_find [of 1 q' c sh n'] n' by (simp add: find_cell_def)
  finally have "List.find ?P (delete_rows sh n) = Some (sh ! (n' - 1))" .
  from find_find_from [OF this, of 1] obtain m where
    m: "find_from 1 q' c (delete_rows sh n) = Some m" "1 \<le> m"
       "m - 1 < length (delete_rows sh n)" "delete_rows sh n ! (m - 1) = sh ! (n' - 1)"
    by blast
  have "m \<le> length (delete_rows sh n)" using m(2,3) by arith
  then have "row_values (delete_rows sh n) m = delete_rows sh n ! (m - 1)"
    using m(2) by (simp add: row_values_def)
  moreover have "row_values sh n' = sh ! (n' - 1)" using b(1,2) by (simp add: row_values_def)
  ultimately show ?thesis using m(1,4) by (auto simp: find_cell_def)
qed

lemma find_record_by_id_cong:
  assumes "is_connected st' = is_connected st" and "sheets st' title = sheets st title"
  shows "find_record_by_id flt st' title rid c = find_record_by_id flt st title rid c"
  using assms by (simp add: find_record_by_id_def find_record_try_def get_worksheet_def)

lemma append_row_ok:
  assumes "is_connected st" and "sheets st title = Some lg"
    and "\<not> flt AppendRowM title Worksheet" and "\<not> flt AppendRowM title AppendRow"
  shows "append_row flt st title data
         = (Inr (), st\<lparr>sheets := (sheets st)(title \<mapsto> lg @ [data])\<rparr>)"
  using assms by (simp add: append_row_def get_worksheet_def)

section \<open>The claims\<close>

text \<open>
  C9. \<open>consume_qr_token\<close> answers \<open>None\<close>, the answer it gives for a token that is not in
  the sheet, whenever one of its calls to the sheets service (opening the worksheet,
  find, the two row reads, the delete) raises; the spreadsheet is left as it was, and
  \<open>check_in\<close> then reports the invalid-or-used-token failure, not a storage failure.
\<close>

theorem consume_conflates_store_failure:
  assumes "is_connected st" and "consume_faulty flt"
  shows "consume_qr_token flt st (qr_code_token request) = (None, st)
       \<and> check_in flt now utc_now uuid4 local_now request st = (Inl InvalidOrUsedToken, st)"
  using assms by (simp add: check_in_def consume_faulty_None)

theorem consume_conflates_store_failure_witness:
  "is_connected demo_store
   \<and> consume_faulty (\<lambda>who title call. call = Find)
   \<and> find_cell (qr_code_token demo_request) 1 [qr_token_headers, [''t1'', ''P001'', ''A101'', ''d1'', ''15'']] = Some 2
   \<and> check_in (\<lambda>who title call. call = Find) 5 demo_time ''r1'' demo_time demo_request demo_store
       = (Inl InvalidOrUsedToken, demo_store)"
  using consume_conflates_store_failure [of demo_store "\<lambda>who title call. call = Find"
      demo_request 5 demo_time "''r1''" demo_time]
  by (simp add: demo_store_def consume_faulty_def demo_request_def find_cell_def cell_value_def
      qr_token_headers_def)

text \<open>
  C2, as the code has it. The expiry test is \<open>time.time() > expires_at\<close>: a token
  redeemed at a time strictly after its \<open>expires_at\<close> fails with the expired answer,
  whatever else holds, and its row is deleted from the token sheet all the same.
\<close>

theorem expired_token_is_burned:
  assumes "is_connected st" and "\<not> consume_faulty flt"
    and "sheets st ''Qr_Tokens'' = Some sh"
    and "find_cell (qr_code_token request) 1 sh = Some n"
    and "expiry_of (zip (row_values sh 1) (row_values sh n)) = Some e"
    and "now > real_of_int e"
  shows "check_in flt now utc_now uuid4 local_now request st
         = (Inl Expired, st\<lparr>sheets := (sheets st)(''Qr_Tokens'' \<mapsto> delete_rows sh n)\<rparr>)"
  using assms(1,6) by (simp add: check_in_def consume_qr_token_ok [OF assms(1-5)])

theorem expired_token_is_burned_witness:
  "check_in no_faults 16 demo_time ''r1'' demo_time demo_request demo_store
   = (Inl Expired, demo_store\<lparr>sheets := (sheets demo_store)(''Qr_Tokens'' \<mapsto> [qr_token_headers])\<rparr>)"
proof -
  let ?sh = "[qr_token_headers, [''t1'', ''P001'', ''A101'', ''d1'', ''15'']]"
  have h1: "is_connected demo_store" by (simp add: demo_defs)
  have h2: "\<not> consume_faulty no_faults" by (simp add: demo_defs)
  have h3: "sheets demo_store ''Qr_Tokens'' = Some ?sh" by (simp add: demo_defs)
  have h4: "find_cell (qr_code_token demo_request) 1 ?sh = Some 2"
    by (simp add: sheet_eval demo_defs)
  have h5: "expiry_of (zip (row_values ?sh 1) (row_values ?sh 2)) = Some 15"
    by (simp add: sheet_eval int_eval demo_defs)
  have h6: "(16 :: real) > real_of_int 15" by simp
  have d: "delete_rows ?sh 2 = [qr_token_headers]" by (simp add: sheet_eval)
  show ?thesis
    using expired_token_is_burned [OF h1 h2 h3 h4 h5 h6, of demo_time "''r1''" demo_time]
    by (simp add: d)
qed

text \<open>
  C2 as stated fails at the deadline itself: redeemed at second 15, the token that
  expires at second 15 is accepted.
\<close>

theorem expiry_at_deadline_counterexample:
  "expiry_of (zip qr_token_headers [''t1'', ''P001'', ''A101'', ''d1'', ''15'']) = Some 15
   \<and> (15 :: real) \<ge> real_of_int 15
   \<and> fst (check_in no_faults 15 demo_time ''r1'' demo_time demo_request demo_store)
       = Inr \<lparr>participant_name = ''Ming'', checked_participant_id = Some ''P001'',
              checkin_time = ''2026-01-10 09:00:05''\<rparr>"
  by (simp add: check_in_eval manager_eval sheet_eval int_eval demo_defs format_eval)





text \<open>
  C1. When a redeem succeeds and the token's id stands in at most one row of the token
  sheet (ids are unique), the call has deleted that row, and every later redeem of the same
  token, whatever fails or not during it and whatever the clock shows, gets the
  invalid-or-used-token answer and leaves the spreadsheet, the attendance log included,
  as it was.
\<close>

theorem redeemed_token_is_single_use:
  assumes first: "check_in flt now utc_now uuid4 local_now request st = (Inr resp, st')"
    and tokens: "sheets st ''Qr_Tokens'' = Some sh"
    and once: "length (filter (\<lambda>r. cell_value r 1 = qr_code_token request) sh) \<le> 1"
    and again: "qr_code_token request2 = qr_code_token request"
  shows "(\<exists>n. find_cell (qr_code_token request) 1 sh = Some n
            \<and> sheets st' ''Qr_Tokens'' = Some (delete_rows sh n))
       \<and> check_in flt2 now2 utc_now2 uuid42 local_now2 request2 st'
           = (Inl InvalidOrUsedToken, st')"
proof -
  from check_in_success [OF first] tokens obtain n lg row where
    conn: "is_connected st"
    and n: "find_cell (qr_code_token request) 1 sh = Some n"
    and st': "st' = st\<lparr>sheets := (sheets st)(''Qr_Tokens'' \<mapsto> delete_rows sh n,
                  ''Attendance_Log'' \<mapsto> lg @ [row])\<rparr>"
    by auto
  have t': "sheets st' ''Qr_Tokens'' = Some (delete_rows sh n)"
    unfolding st' by simp
  have conn': "is_connected st'" unfolding st' using conn by simp
  have gone: "find_cell (qr_code_token request2) 1 (delete_rows sh n) = None"
    unfolding again by (rule find_cell_deleted_once [OF once n])
  have "consume_qr_token flt2 st' (qr_code_token request2) = (None, st')"
    by (rule consume_absent [OF t' gone])
  from check_in_not_consumed [OF conn' this] n t' show ?thesis by simp
qed

theorem redeemed_token_is_single_use_witness:
  "check_in no_faults 5 demo_time ''r1'' demo_time demo_request demo_store
   = (Inr \<lparr>participant_name = ''Ming'', checked_participant_id = Some ''P001'',
            checkin_time = ''2026-01-10 09:00:05''\<rparr>, demo_store_after)
   \<and> sheets demo_store_after ''Qr_Tokens'' = Some [qr_token_headers]
   \<and> check_in no_faults 6 demo_time ''r2'' demo_time demo_request demo_store_after
       = (Inl InvalidOrUsedToken, demo_store_after)"
proof -
  let ?sh = "[qr_token_headers, [''t1'', ''P001'', ''A101'', ''d1'', ''15'']]"
  have h2: "sheets demo_store ''Qr_Tokens'' = Some ?sh" by (simp add: demo_defs)
  have h3: "length (filter (\<lambda>r. cell_value r 1 = qr_code_token demo_request) ?sh) \<le> 1"
    by (simp add: sheet_eval demo_defs)
  have h4: "qr_code_token demo_request = qr_code_token demo_request" by simp
  have t: "sheets demo_store_after ''Qr_Tokens'' = Some [qr_token_headers]"
    by (simp add: demo_store_after_def)
  show ?thesis
    using redeemed_token_is_single_use [OF demo_check_in h2 h3 h4,
        of no_faults 6 demo_time "''r2''" demo_time] demo_check_in t
    by simp
qed




text \<open>
  C10. On every successful redeem the row appended to the attendance log carries, as its
  check-in time, the ISO format of the UTC clock reading taken before the write, and the
  answer carries the \<open>%Y-%m-%d %H:%M:%S\<close> format of the local clock reading taken after
  it. The two texts are never equal, whatever the two readings are: the first contains the
  \<open>+\<close> of its UTC offset, the second contains none.
\<close>

theorem reported_time_differs_from_recorded_time:
  assumes "check_in flt now utc_now uuid4 local_now request st = (Inr resp, st')"
  shows "(\<exists>lg p. sheets st ''Attendance_Log'' = Some lg
            \<and> sheets st' ''Attendance_Log''
                = Some (lg @ [[uuid4, p, claimed_agenda_item_id request, isoformat_utc utc_now,
                               ''QR_CODE'', scanner_device_id request, ''TRUE'']]))
       \<and> checkin_time resp = strftime_local local_now
       \<and> isoformat_utc utc_now \<noteq> checkin_time resp"
proof -
  from check_in_success [OF assms] obtain sh n lg where
    lg: "sheets st ''Attendance_Log'' = Some lg"
    and st': "st' = st\<lparr>sheets := (sheets st)
                 (''Qr_Tokens'' \<mapsto> delete_rows sh n,
                  ''Attendance_Log'' \<mapsto> lg @
                     [[uuid4,
                       cell_of (dict_get (zip (row_values sh 1) (row_values sh n)) ''participant_id''),
                       claimed_agenda_item_id request, isoformat_utc utc_now, ''QR_CODE'',
                       scanner_device_id request, ''TRUE'']])\<rparr>"
    and t: "checkin_time resp = strftime_local local_now"
    by blast
  have "sheets st' ''Attendance_Log''
        = Some (lg @ [[uuid4,
                       cell_of (dict_get (zip (row_values sh 1) (row_values sh n)) ''participant_id''),
                       claimed_agenda_item_id request, isoformat_utc utc_now, ''QR_CODE'',
                       scanner_device_id request, ''TRUE'']])"
    unfolding st' by simp
  with lg have "\<exists>lg p. sheets st ''Attendance_Log'' = Some lg
            \<and> sheets st' ''Attendance_Log''
                = Some (lg @ [[uuid4, p, claimed_agenda_item_id request, isoformat_utc utc_now,
                               ''QR_CODE'', scanner_device_id request, ''TRUE'']])"
    by blast
  moreover have "isoformat_utc utc_now \<noteq> checkin_time resp"
    unfolding t by (rule isoformat_utc_neq_strftime_local)
  ultimately show ?thesis using t by blast
qed

theorem reported_time_differs_from_recorded_time_witness:
  "sheets demo_store_after ''Attendance_Log''
     = Some [attendance_headers,
             [''r1'', ''P001'', ''A101'', ''2026-01-10T09:00:05+00:00'', ''QR_CODE'', ''s1'',
              ''TRUE'']]
   \<and> checkin_time \<lparr>participant_name = ''Ming'', checked_participant_id = Some ''P001'',
                    checkin_time = ''2026-01-10 09:00:05''\<rparr> = strftime_local demo_time
   \<and> isoformat_utc demo_time \<noteq> ''2026-01-10 09:00:05''"
proof -
  have l: "sheets demo_store_after ''Attendance_Log''
     = Some [attendance_headers,
             [''r1'', ''P001'', ''A101'', ''2026-01-10T09:00:05+00:00'', ''QR_CODE'', ''s1'',
              ''TRUE'']]"
    by (simp add: demo_store_after_def)
  note th = reported_time_differs_from_recorded_time [OF demo_check_in]
  from th have t: "checkin_time \<lparr>participant_name = ''Ming'', checked_participant_id = Some ''P001'',
                    checkin_time = ''2026-01-10 09:00:05''\<rparr> = strftime_local demo_time"
    by blast
  from th have "isoformat_utc demo_time
       \<noteq> checkin_time \<lparr>participant_name = ''Ming'', checked_participant_id = Some ''P001'',
                    checkin_time = ''2026-01-10 09:00:05''\<rparr>"
    by blast
  then have n: "isoformat_utc demo_time \<noteq> ''2026-01-10 09:00:05''" by simp
  from l t n show ?thesis by blast
qed




end
